theory Spec2Isabelle
  imports Complex_Main "HOL-Library.Log_Nat"
begin

section \<open>Data model\<close>

text \<open>
  The Python sources compute on floats. For \<open>black_scholes\<close> and \<open>iron_condor\<close> the
  embedding reads every float as a real number and every float operation as the exact
  real operation, so rounding, overflow of \<open>math.exp\<close> and underflow are outside the
  model of these two functions. The exceptions that the exact operations raise are kept:
  \<open>math.sqrt\<close> of a negative number and \<open>math.log\<close> of a non-positive number raise
  \<open>ValueError\<close>, and \<open>/\<close> by zero raises \<open>ZeroDivisionError\<close>.

  \<open>iron_condor_payoff\<close> only adds, subtracts and compares, operations that IEEE 754
  fixes to the bit. Its embedding computes in binary64: every sum and difference is
  rounded to the nearest double, ties to even, and overflows to an infinity.
\<close>

datatype error = ValueError | ZeroDivisionError

text \<open>The dictionary returned by \<open>black_scholes\<close>: six fixed keys.\<close>

record greeks =
  price :: real
  delta :: real
  gamma :: real
  vega :: real
  theta :: real
  rho :: real

text \<open>The dictionary returned by \<open>iron_condor\<close> and read by \<open>iron_condor_payoff\<close>.\<close>

record strikes =
  long_put :: real
  short_put :: real
  short_call :: real
  long_call :: real

section \<open>Library operations of Python\<close>

definition math_sqrt :: "real \<Rightarrow> error + real" where
  "math_sqrt x = (if x < 0 then Inl ValueError else Inr (sqrt x))"

definition math_log :: "real \<Rightarrow> error + real" where
  "math_log x = (if x \<le> 0 then Inl ValueError else Inr (ln x))"

definition py_div :: "real \<Rightarrow> real \<Rightarrow> error + real" where
  "py_div x y = (if y = 0 then Inl ZeroDivisionError else Inr (x / y))"

text \<open>Sequencing of computations that may raise: the first exception is the result.\<close>

definition then_res :: "error + 'a \<Rightarrow> ('a \<Rightarrow> error + 'b) \<Rightarrow> error + 'b" where
  "then_res m f = (case m of Inl e \<Rightarrow> Inl e | Inr v \<Rightarrow> f v)"

text \<open>
  \<open>str.lower\<close> on the ASCII range: the letters A to Z are mapped to a to z, every other
  character is kept.
\<close>

definition lower_char :: "char \<Rightarrow> char" where
  "lower_char c =
     (let n = (of_char c :: nat) in if 65 \<le> n \<and> n \<le> 90 then char_of (n + 32) else c)"

definition lower :: "string \<Rightarrow> string" where
  "lower s = map lower_char s"

subsection \<open>Double-precision arithmetic\<close>

text \<open>
  A Python float is a finite binary64 number, an infinity or a NaN. \<open>rnd\<close> rounds a
  real to the nearest number with a 53-bit significand and an exponent of at least
  \<open>- 1022\<close> (so the subnormal numbers are multiples of \<open>2^(- 1074)\<close>), ties to the
  even significand; \<open>fl_of\<close> adds the overflow to an infinity. The two signed zeros are
  both \<open>Fin 0\<close>. \<open>py_max0\<close> is \<open>max(0, t)\<close>, which returns \<open>t\<close> only when \<open>t > 0\<close>
  holds and \<open>0\<close> otherwise, also for a NaN.
\<close>

datatype pyfloat = Fin real | PosInf | NegInf | NaN

definition round_half_even :: "real \<Rightarrow> int" where
  "round_half_even y =
     (let f = \<lfloor>y\<rfloor> in
      if y - of_int f < 1 / 2 then f
      else if 1 / 2 < y - of_int f then f + 1
      else if even f then f else f + 1)"

definition pow2 :: "int \<Rightarrow> real" where
  "pow2 q = (if 0 \<le> q then 2 ^ nat q else 1 / 2 ^ nat (- q))"

definition binade :: "real \<Rightarrow> int" where
  "binade z =
     (if 1 \<le> \<bar>z\<bar> then bitlen \<lfloor>\<bar>z\<bar>\<rfloor> - 1 else - bitlen (\<lceil>1 / \<bar>z\<bar>\<rceil> - 1))"

definition ulp :: "real \<Rightarrow> real" where
  "ulp z = pow2 (max (binade z) (- 1022) - 52)"

definition rnd :: "real \<Rightarrow> real" where
  "rnd z = (if z = 0 then 0 else ulp z * of_int (round_half_even (z / ulp z)))"

definition fl_of :: "real \<Rightarrow> pyfloat" where
  "fl_of z =
     (let y = rnd z in
      if 2 ^ 1024 \<le> y then PosInf else if y \<le> - (2 ^ 1024) then NegInf else Fin y)"

fun fl_add :: "pyfloat \<Rightarrow> pyfloat \<Rightarrow> pyfloat" where
  "fl_add (Fin a) (Fin b) = fl_of (a + b)"
| "fl_add NaN y = NaN"
| "fl_add x NaN = NaN"
| "fl_add PosInf NegInf = NaN"
| "fl_add NegInf PosInf = NaN"
| "fl_add PosInf y = PosInf"
| "fl_add x PosInf = PosInf"
| "fl_add NegInf y = NegInf"
| "fl_add x NegInf = NegInf"

fun fl_neg :: "pyfloat \<Rightarrow> pyfloat" where
  "fl_neg (Fin a) = Fin (- a)"
| "fl_neg PosInf = NegInf"
| "fl_neg NegInf = PosInf"
| "fl_neg NaN = NaN"

definition fl_sub :: "pyfloat \<Rightarrow> pyfloat \<Rightarrow> pyfloat" where
  "fl_sub x y = fl_add x (fl_neg y)"

fun fl_pos :: "pyfloat \<Rightarrow> bool" where
  "fl_pos (Fin a) = (0 < a)"
| "fl_pos PosInf = True"
| "fl_pos NegInf = False"
| "fl_pos NaN = False"

definition py_max0 :: "pyfloat \<Rightarrow> pyfloat" where
  "py_max0 t = (if fl_pos t then t else Fin 0)"

section \<open>prices.py\<close>

text \<open>
  \<open>math.erf\<close> is a function of the Python library; the pricer takes it as the
  parameter \<open>erf\<close>.
\<close>

definition norm_cdf :: "(real \<Rightarrow> real) \<Rightarrow> real \<Rightarrow> real" where
  "norm_cdf erf x = 0.5 * (1 + erf (x / sqrt 2))"

definition norm_pdf :: "real \<Rightarrow> real" where
  "norm_pdf x = exp (- 0.5 * x * x) / sqrt (2 * pi)"

definition black_scholes ::
  "(real \<Rightarrow> real) \<Rightarrow> real \<Rightarrow> real \<Rightarrow> real \<Rightarrow> real \<Rightarrow> real \<Rightarrow> string \<Rightarrow> real \<Rightarrow> error + greeks"
where
  "black_scholes erf S K T r sigma option_type q =
    (let option_type = lower option_type in
     if T \<le> 0 then
       Inr \<lparr>price = (if option_type = ''call'' then max 0 (S - K) else max 0 (K - S)),
            delta = 0, gamma = 0, vega = 0, theta = 0, rho = 0\<rparr>
     else if sigma \<le> 0 then
       (let forward = S * exp (- q * T);
            discounted_payoff =
              exp (- r * T) *
                (if option_type = ''call'' then max 0 (forward - K) else max 0 (K - forward))
        in Inr \<lparr>price = discounted_payoff,
                delta = 0, gamma = 0, vega = 0, theta = 0, rho = 0\<rparr>)
     else
       then_res (math_sqrt T) (\<lambda>sqrtT.
       then_res (py_div S K) (\<lambda>ratio.
       then_res (math_log ratio) (\<lambda>lg.
       then_res (py_div (lg + (r - q + 0.5 * sigma * sigma) * T) (sigma * sqrtT)) (\<lambda>d1.
       let d2 = d1 - sigma * sqrtT in
       then_res (py_div (S * sigma * exp (- q * T) * norm_pdf d1) (2 * sqrtT)) (\<lambda>decay.
       let p = (if option_type = ''call''
                then S * exp (- q * T) * norm_cdf erf d1 - K * exp (- r * T) * norm_cdf erf d2
                else K * exp (- r * T) * norm_cdf erf (- d2)
                       - S * exp (- q * T) * norm_cdf erf (- d1));
           dl = (if option_type = ''call''
                 then exp (- q * T) * norm_cdf erf d1
                 else exp (- q * T) * (norm_cdf erf d1 - 1));
           rh = (if option_type = ''call''
                 then K * T * exp (- r * T) * norm_cdf erf d2
                 else - K * T * exp (- r * T) * norm_cdf erf (- d2));
           th = (if option_type = ''call''
                 then - decay - r * K * exp (- r * T) * norm_cdf erf d2
                        + q * S * exp (- q * T) * norm_cdf erf d1
                 else - decay + r * K * exp (- r * T) * norm_cdf erf (- d2)
                        - q * S * exp (- q * T) * norm_cdf erf (- d1))
       in
       then_res (py_div (exp (- q * T) * norm_pdf d1) (S * sigma * sqrtT)) (\<lambda>gm.
       let vg = S * exp (- q * T) * norm_pdf d1 * sqrtT in
       Inr \<lparr>price = p, delta = dl, gamma = gm, vega = vg, theta = th, rho = rh\<rparr>)))))))"

section \<open>ironCondor.py\<close>

definition iron_condor :: "real \<Rightarrow> real \<Rightarrow> real \<Rightarrow> real \<Rightarrow> real \<Rightarrow> error + strikes" where
  "iron_condor S sigma T r width =
    then_res (math_sqrt T) (\<lambda>rootT.
      let move = S * sigma * rootT;
          short_put = S - move;
          long_put = short_put - width;
          short_call = S + move;
          long_call = short_call + width
      in Inr \<lparr>long_put = long_put, short_put = short_put,
              short_call = short_call, long_call = long_call\<rparr>)"

definition iron_condor_payoff :: "real \<Rightarrow> strikes \<Rightarrow> real \<Rightarrow> pyfloat" where
  "iron_condor_payoff S_T st credit =
    (let lp = Fin (long_put st); sp = Fin (short_put st);
         sc = Fin (short_call st); lc = Fin (long_call st);
         payoff = Fin credit;
         payoff = fl_sub payoff (py_max0 (fl_sub sp (Fin S_T)));
         payoff = fl_add payoff (py_max0 (fl_sub lp (Fin S_T)));
         payoff = fl_sub payoff (py_max0 (fl_sub (Fin S_T) sc));
         payoff = fl_add payoff (py_max0 (fl_sub (Fin S_T) lc))
     in payoff)"

section \<open>The error function and the closed form of the specification\<close>

text \<open>
  The error function over the reals, as its Maclaurin series
  \<open>2/sqrt pi * (x - x^3/3 + x^5/10 - ...)\<close>; it is the value of the parameter
  \<open>erf\<close> wherever a concrete function is needed.
\<close>

definition erf_coeff :: "nat \<Rightarrow> real" where
  "erf_coeff n =
     (if even n then 0 else (- 1) ^ ((n - 1) div 2) / (fact ((n - 1) div 2) * real n))"

definition erf_real :: "real \<Rightarrow> real" where
  "erf_real x = 2 / sqrt pi * (\<Sum>n. erf_coeff n * x ^ n)"

text \<open>
  The closed form as the specification words it: \<open>d1\<close>, \<open>d2\<close> and the six
  fields for a call and for a put.
\<close>

definition d1_of :: "real \<Rightarrow> real \<Rightarrow> real \<Rightarrow> real \<Rightarrow> real \<Rightarrow> real \<Rightarrow> real" where
  "d1_of S K T r sigma q = (ln (S / K) + (r - q + 0.5 * sigma\<^sup>2) * T) / (sigma * sqrt T)"

definition d2_of :: "real \<Rightarrow> real \<Rightarrow> real \<Rightarrow> real \<Rightarrow> real \<Rightarrow> real \<Rightarrow> real" where
  "d2_of S K T r sigma q = d1_of S K T r sigma q - sigma * sqrt T"

definition closed_form ::
  "(real \<Rightarrow> real) \<Rightarrow> bool \<Rightarrow> real \<Rightarrow> real \<Rightarrow> real \<Rightarrow> real \<Rightarrow> real \<Rightarrow> real \<Rightarrow> greeks"
where
  "closed_form erf is_call S K T r sigma q =
    (let d1 = d1_of S K T r sigma q; d2 = d2_of S K T r sigma q in
     \<lparr>price = (if is_call
               then S * exp (- q * T) * norm_cdf erf d1 - K * exp (- r * T) * norm_cdf erf d2
               else K * exp (- r * T) * norm_cdf erf (- d2)
                      - S * exp (- q * T) * norm_cdf erf (- d1)),
      delta = (if is_call then exp (- q * T) * norm_cdf erf d1
               else exp (- q * T) * (norm_cdf erf d1 - 1)),
      gamma = exp (- q * T) * norm_pdf d1 / (S * sigma * sqrt T),
      vega = S * exp (- q * T) * norm_pdf d1 * sqrt T,
      theta = (if is_call
               then - (S * sigma * exp (- q * T) * norm_pdf d1) / (2 * sqrt T)
                    - r * K * exp (- r * T) * norm_cdf erf d2
                    + q * S * exp (- q * T) * norm_cdf erf d1
               else - (S * sigma * exp (- q * T) * norm_pdf d1) / (2 * sqrt T)
                    + r * K * exp (- r * T) * norm_cdf erf (- d2)
                    - q * S * exp (- q * T) * norm_cdf erf (- d1)),
      rho = (if is_call then K * T * exp (- r * T) * norm_cdf erf d2
             else - K * T * exp (- r * T) * norm_cdf erf (- d2))\<rparr>)"

text \<open>The price fields of the closed form as functions of the spot.\<close>

definition call_price :: "(real \<Rightarrow> real) \<Rightarrow> real \<Rightarrow> real \<Rightarrow> real \<Rightarrow> real \<Rightarrow> real \<Rightarrow> real \<Rightarrow> real" where
  "call_price erf K T r sigma q S =
     S * exp (- q * T) * norm_cdf erf (d1_of S K T r sigma q)
       - K * exp (- r * T) * norm_cdf erf (d2_of S K T r sigma q)"

definition put_price :: "(real \<Rightarrow> real) \<Rightarrow> real \<Rightarrow> real \<Rightarrow> real \<Rightarrow> real \<Rightarrow> real \<Rightarrow> real \<Rightarrow> real" where
  "put_price erf K T r sigma q S =
     K * exp (- r * T) * norm_cdf erf (- d2_of S K T r sigma q)
       - S * exp (- q * T) * norm_cdf erf (- d1_of S K T r sigma q)"

text \<open>
  The payoff as the specification words it, in exact real arithmetic, and the two
  constants of the rounding error of binary64: half the spacing of the doubles relative
  to their magnitude, and half the spacing of the subnormal numbers.
\<close>

definition payoff_exact :: "real \<Rightarrow> strikes \<Rightarrow> real \<Rightarrow> real" where
  "payoff_exact terminalPrice st credit =
     credit - max 0 (short_put st - terminalPrice) + max 0 (long_put st - terminalPrice)
       - max 0 (terminalPrice - short_call st) + max 0 (terminalPrice - long_call st)"

definition unit_roundoff :: real where
  "unit_roundoff = 1 / 2 ^ 53"

definition tiny :: real where
  "tiny = 1 / 2 ^ 1075"

section \<open>Evaluation lemmas\<close>

lemma lower_call: "lower ''call'' = ''call''"
  by (simp add: lower_def lower_char_def)

lemma lower_put: "lower ''put'' = ''put''"
  by (simp add: lower_def lower_char_def)

lemma black_scholes_expiry:
  "T \<le> 0 \<Longrightarrow> black_scholes erf S K T r sigma kind q =
     Inr \<lparr>price = (if lower kind = ''call'' then max 0 (S - K) else max 0 (K - S)),
          delta = 0, gamma = 0, vega = 0, theta = 0, rho = 0\<rparr>"
  by (simp add: black_scholes_def)

lemma black_scholes_zero_vol:
  "0 < T \<Longrightarrow> sigma \<le> 0 \<Longrightarrow> black_scholes erf S K T r sigma kind q =
     Inr \<lparr>price = exp (- r * T) * (if lower kind = ''call'' then max 0 (S * exp (- q * T) - K)
                                     else max 0 (K - S * exp (- q * T))),
          delta = 0, gamma = 0, vega = 0, theta = 0, rho = 0\<rparr>"
  by (simp add: black_scholes_def Let_def)

lemma black_scholes_general:
  assumes "0 < T" "0 < sigma" "K \<noteq> 0" "0 < S / K"
  shows "black_scholes erf S K T r sigma kind q =
           Inr (closed_form erf (lower kind = ''call'') S K T r sigma q)"
proof -
  have "S \<noteq> 0" using assms by auto
  then show ?thesis using assms
    by (simp add: black_scholes_def Let_def then_res_def math_sqrt_def math_log_def py_div_def
        closed_form_def d1_of_def d2_of_def power2_eq_square)
qed

lemma black_scholes_div_error:
  "0 < T \<Longrightarrow> 0 < sigma \<Longrightarrow> K = 0 \<Longrightarrow>
     black_scholes erf S K T r sigma kind q = Inl ZeroDivisionError"
  by (simp add: black_scholes_def Let_def then_res_def math_sqrt_def py_div_def)

lemma black_scholes_log_error:
  "0 < T \<Longrightarrow> 0 < sigma \<Longrightarrow> K \<noteq> 0 \<Longrightarrow> S / K \<le> 0 \<Longrightarrow>
     black_scholes erf S K T r sigma kind q = Inl ValueError"
  by (simp add: black_scholes_def Let_def then_res_def math_sqrt_def py_div_def math_log_def)

lemma iron_condor_eq:
  "iron_condor S sigma T r width =
     (if T < 0 then Inl ValueError
      else Inr \<lparr>long_put = S - S * sigma * sqrt T - width,
                short_put = S - S * sigma * sqrt T,
                short_call = S + S * sigma * sqrt T,
                long_call = S + S * sigma * sqrt T + width\<rparr>)"
  by (simp add: iron_condor_def then_res_def math_sqrt_def Let_def)

section \<open>The error function: convergence, derivative, symmetry\<close>

lemma erf_terms_summable:
  "summable (\<lambda>k. (- 1) ^ k * x ^ (2 * k + 1) / (fact k * real (2 * k + 1)))" (is "summable ?g")
proof (rule summable_comparison_test)
  show "summable (\<lambda>k. \<bar>x\<bar> * ((x\<^sup>2) ^ k /\<^sub>R fact k))"
    by (rule summable_mult) (rule summable_exp_generic)
  show "\<exists>N. \<forall>n\<ge>N. norm (?g n) \<le> \<bar>x\<bar> * ((x\<^sup>2) ^ n /\<^sub>R fact n)"
  proof (intro exI allI impI)
    fix n :: nat
    have "norm (?g n) = \<bar>x\<bar> * (x\<^sup>2) ^ n / (fact n * real (2 * n + 1))"
      by (simp add: abs_mult power_abs power_mult)
    also have "\<dots> \<le> \<bar>x\<bar> * (x\<^sup>2) ^ n / fact n"
      by (rule divide_left_mono) (simp_all add: mult_nonneg_nonneg)
    finally show "norm (?g n) \<le> \<bar>x\<bar> * ((x\<^sup>2) ^ n /\<^sub>R fact n)"
      by (simp add: divide_inverse mult_ac)
  qed
qed

lemma erf_coeff_summable: "summable (\<lambda>n. erf_coeff n * x ^ n)"
proof -
  let ?g = "\<lambda>k. (- 1) ^ k * x ^ (2 * k + 1) / (fact k * real (2 * k + 1))"
  have "?g sums suminf ?g"
    by (rule summable_sums) (rule erf_terms_summable)
  then have "(\<lambda>n. if even n then 0 else ?g ((n - 1) div 2)) sums suminf ?g"
    by (rule sums_if')
  moreover have "(\<lambda>n. if even n then 0 else ?g ((n - 1) div 2)) = (\<lambda>n. erf_coeff n * x ^ n)"
  proof
    fix n :: nat
    show "(if even n then 0 else ?g ((n - 1) div 2)) = erf_coeff n * x ^ n"
    proof (cases "even n")
      case True
      then show ?thesis by (simp add: erf_coeff_def)
    next
      case False
      then obtain k where "n = 2 * k + 1" by (auto elim: oddE)
      then show ?thesis by (simp add: erf_coeff_def)
    qed
  qed
  ultimately show ?thesis by (simp add: sums_iff)
qed

lemma diffs_erf_coeff:
  "diffs erf_coeff n = (if even n then (- 1) ^ (n div 2) / fact (n div 2) else 0)"
proof (cases "even n")
  case True
  then obtain k where "n = 2 * k" by (auto elim: evenE)
  then show ?thesis
    by (simp add: diffs_def erf_coeff_def del: of_nat_Suc)
next
  case False
  then show ?thesis by (simp add: diffs_def erf_coeff_def)
qed

lemma exp_neg_square_series: "(\<lambda>n. diffs erf_coeff n * x ^ n) sums exp (- x\<^sup>2)"
proof -
  let ?f = "\<lambda>k. (- x\<^sup>2) ^ k /\<^sub>R fact k"
  have f: "?f sums exp (- x\<^sup>2)" by (rule exp_converges)
  have z: "(\<lambda>k. 0::real) sums 0" by simp
  have "(\<lambda>n. if even n then ?f (n div 2) else 0) sums (0 + exp (- x\<^sup>2))"
    by (rule sums_if [OF z f])
  moreover have "(\<lambda>n. if even n then ?f (n div 2) else 0) = (\<lambda>n. diffs erf_coeff n * x ^ n)"
  proof
    fix n :: nat
    show "(if even n then ?f (n div 2) else 0) = diffs erf_coeff n * x ^ n"
    proof (cases "even n")
      case True
      then obtain k where n: "n = 2 * k" by (auto elim: evenE)
      have "(- x\<^sup>2) ^ k = (- 1) ^ k * x ^ (2 * k)"
        by (simp add: power_mult power_minus [of "x\<^sup>2"])
      then show ?thesis using n
        by (simp add: diffs_erf_coeff divide_inverse)
    next
      case False
      then show ?thesis by (simp add: diffs_erf_coeff)
    qed
  qed
  ultimately show ?thesis by simp
qed

lemma erf_real_deriv:
  "(erf_real has_real_derivative 2 / sqrt pi * exp (- x\<^sup>2)) (at x)"
proof -
  have "((\<lambda>x. \<Sum>n. erf_coeff n * x ^ n) has_real_derivative (\<Sum>n. diffs erf_coeff n * x ^ n)) (at x)"
    by (rule termdiffs_strong_converges_everywhere) (rule erf_coeff_summable)
  moreover have "(\<Sum>n. diffs erf_coeff n * x ^ n) = exp (- x\<^sup>2)"
    using exp_neg_square_series [of x] by (simp add: sums_iff)
  ultimately have "((\<lambda>x. \<Sum>n. erf_coeff n * x ^ n) has_real_derivative exp (- x\<^sup>2)) (at x)"
    by simp
  then have "((\<lambda>x. 2 / sqrt pi * (\<Sum>n. erf_coeff n * x ^ n)) has_real_derivative
               2 / sqrt pi * exp (- x\<^sup>2)) (at x)"
    by (rule DERIV_cmult)
  moreover have "erf_real = (\<lambda>x. 2 / sqrt pi * (\<Sum>n. erf_coeff n * x ^ n))"
    by (rule ext) (simp only: erf_real_def)
  ultimately show ?thesis by (simp only:)
qed


section \<open>The normal distribution and the derivatives of the prices in the spot\<close>


lemma norm_pdf_even: "norm_pdf (- x) = norm_pdf x"
  by (simp add: norm_pdf_def)

lemma norm_cdf_nonneg: "\<forall>x. - 1 \<le> erf x \<Longrightarrow> 0 \<le> norm_cdf erf x"
proof -
  assume a: "\<forall>x. - 1 \<le> erf x"
  then have "- 1 \<le> erf (x / sqrt 2)" by blast
  then show ?thesis by (simp add: norm_cdf_def)
qed

lemma norm_cdf_deriv:
  assumes "\<forall>x. (erf has_real_derivative 2 / sqrt pi * exp (- x\<^sup>2)) (at x)"
  shows "(norm_cdf erf has_real_derivative norm_pdf x) (at x)"
proof -
  have e: "(erf has_real_derivative 2 / sqrt pi * exp (- (x / sqrt 2)\<^sup>2)) (at (x / sqrt 2))"
    using assms by blast
  have "((\<lambda>x. erf (x / sqrt 2)) has_real_derivative
          2 / sqrt pi * exp (- (x / sqrt 2)\<^sup>2) * (1 / sqrt 2)) (at x)"
    by (rule DERIV_chain2 [where f = erf and g = "\<lambda>x. x / sqrt 2", OF e])
       (auto intro!: derivative_eq_intros simp: real_div_sqrt)
  then have "((\<lambda>x. 0.5 * (1 + erf (x / sqrt 2))) has_real_derivative
          0.5 * (2 / sqrt pi * exp (- (x / sqrt 2)\<^sup>2) * (1 / sqrt 2))) (at x)"
    by (auto intro!: derivative_eq_intros)
  moreover have "0.5 * (2 / sqrt pi * exp (- (x / sqrt 2)\<^sup>2) * (1 / sqrt 2)) = norm_pdf x"
    by (simp add: norm_pdf_def power_divide real_sqrt_mult power2_eq_square)
  moreover have "norm_cdf erf = (\<lambda>x. 0.5 * (1 + erf (x / sqrt 2)))"
    by (rule ext) (simp only: norm_cdf_def)
  ultimately show ?thesis by (simp only:)
qed

lemma d1_of_deriv:
  assumes "0 < S" "0 < K" "0 < T" "0 < sigma"
  shows "((\<lambda>s. d1_of s K T r sigma q) has_real_derivative 1 / (S * sigma * sqrt T)) (at S)"
proof -
  have "((\<lambda>s. (ln (s / K) + (r - q + 0.5 * sigma\<^sup>2) * T) / (sigma * sqrt T))
          has_real_derivative (1 / (S / K) * (1 / K)) / (sigma * sqrt T)) (at S)"
    using assms by (auto intro!: derivative_eq_intros)
  moreover have "(1 / (S / K) * (1 / K)) / (sigma * sqrt T) = 1 / (S * sigma * sqrt T)"
    using assms by (simp add: field_simps)
  moreover have "(\<lambda>s. d1_of s K T r sigma q) =
      (\<lambda>s. (ln (s / K) + (r - q + 0.5 * sigma\<^sup>2) * T) / (sigma * sqrt T))"
    by (rule ext) (simp only: d1_of_def)
  ultimately show ?thesis by (simp only:)
qed

lemma d2_of_deriv:
  assumes "0 < S" "0 < K" "0 < T" "0 < sigma"
  shows "((\<lambda>s. d2_of s K T r sigma q) has_real_derivative 1 / (S * sigma * sqrt T)) (at S)"
proof -
  have "((\<lambda>s. d1_of s K T r sigma q - sigma * sqrt T) has_real_derivative
          1 / (S * sigma * sqrt T) - 0) (at S)"
    by (rule DERIV_diff [OF d1_of_deriv [OF assms]]) simp
  moreover have "(\<lambda>s. d2_of s K T r sigma q) = (\<lambda>s. d1_of s K T r sigma q - sigma * sqrt T)"
    by (rule ext) (simp only: d2_of_def)
  ultimately show ?thesis by (simp only: diff_zero)
qed

lemma pdf_identity:
  assumes "0 < S" "0 < K" "0 < T" "0 < sigma"
  shows "K * exp (- r * T) * norm_pdf (d2_of S K T r sigma q)
         = S * exp (- q * T) * norm_pdf (d1_of S K T r sigma q)"
proof -
  define d1 where "d1 = d1_of S K T r sigma q"
  define v where "v = sigma * sqrt T"
  have v_pos: "0 < v" using assms by (simp add: v_def)
  have vv: "v * v = sigma\<^sup>2 * T"
    using assms by (simp add: v_def power2_eq_square)
  have d1v: "d1 * v = ln (S / K) + (r - q + 0.5 * sigma\<^sup>2) * T"
    using assms by (simp add: d1_def d1_of_def v_def)
  have "- 0.5 * (d1 - v) * (d1 - v) = - 0.5 * d1 * d1 + (d1 * v - 0.5 * (v * v))"
    by (simp add: field_simps)
  also have "\<dots> = - 0.5 * d1 * d1 + (ln (S / K) + (r - q) * T)"
    by (simp only: d1v vv) (simp add: field_simps)
  finally have expo: "- 0.5 * (d1 - v) * (d1 - v)
      = - 0.5 * d1 * d1 + (ln (S / K) + (r - q) * T)" .
  have ratio: "exp (ln (S / K)) = S / K"
    using assms by simp
  have "exp (- 0.5 * (d1 - v) * (d1 - v))
      = exp (- 0.5 * d1 * d1) * (S / K * exp ((r - q) * T))"
    by (simp only: expo exp_add ratio)
  then have pdf: "norm_pdf (d1 - v) = norm_pdf d1 * (S / K * exp ((r - q) * T))"
    by (simp add: norm_pdf_def)
  have disc: "exp (- r * T) * exp ((r - q) * T) = exp (- q * T)"
    by (simp add: exp_add [symmetric] algebra_simps)
  have "K * exp (- r * T) * norm_pdf (d1 - v)
      = K * (S / K) * norm_pdf d1 * (exp (- r * T) * exp ((r - q) * T))"
    by (simp only: pdf) (simp only: mult_ac)
  also have "\<dots> = S * exp (- q * T) * norm_pdf d1"
    using assms by (simp only: disc) simp
  finally have "K * exp (- r * T) * norm_pdf (d1 - v) = S * exp (- q * T) * norm_pdf d1" .
  then show ?thesis
    by (simp add: d2_of_def d1_def v_def)
qed

lemma call_price_deriv:
  assumes erf: "\<forall>x. (erf has_real_derivative 2 / sqrt pi * exp (- x\<^sup>2)) (at x)"
    and pos: "0 < S" "0 < K" "0 < T" "0 < sigma"
  shows "(call_price erf K T r sigma q has_real_derivative
           exp (- q * T) * norm_cdf erf (d1_of S K T r sigma q)) (at S)"
proof -
  let ?d1 = "\<lambda>s. d1_of s K T r sigma q" and ?d2 = "\<lambda>s. d2_of s K T r sigma q"
  let ?w = "1 / (S * sigma * sqrt T)"
  have N1: "((\<lambda>s. norm_cdf erf (?d1 s)) has_real_derivative norm_pdf (?d1 S) * ?w) (at S)"
    by (rule DERIV_chain2 [where f = "norm_cdf erf" and g = ?d1,
          OF norm_cdf_deriv [OF erf] d1_of_deriv [OF pos]])
  have N2: "((\<lambda>s. norm_cdf erf (?d2 s)) has_real_derivative norm_pdf (?d2 S) * ?w) (at S)"
    by (rule DERIV_chain2 [where f = "norm_cdf erf" and g = ?d2,
          OF norm_cdf_deriv [OF erf] d2_of_deriv [OF pos]])
  have sa: "((\<lambda>s. s * exp (- q * T)) has_real_derivative exp (- q * T)) (at S)"
    by (auto intro!: derivative_eq_intros)
  have P1: "((\<lambda>s. s * exp (- q * T) * norm_cdf erf (?d1 s)) has_real_derivative
              exp (- q * T) * norm_cdf erf (?d1 S) + norm_pdf (?d1 S) * ?w * (S * exp (- q * T)))
            (at S)"
    by (rule DERIV_mult [OF sa N1])
  have P2: "((\<lambda>s. K * exp (- r * T) * norm_cdf erf (?d2 s)) has_real_derivative
              K * exp (- r * T) * (norm_pdf (?d2 S) * ?w)) (at S)"
    by (rule DERIV_cmult [OF N2])
  have "((\<lambda>s. s * exp (- q * T) * norm_cdf erf (?d1 s) - K * exp (- r * T) * norm_cdf erf (?d2 s))
          has_real_derivative
          (exp (- q * T) * norm_cdf erf (?d1 S) + norm_pdf (?d1 S) * ?w * (S * exp (- q * T)))
            - K * exp (- r * T) * (norm_pdf (?d2 S) * ?w)) (at S)"
    by (rule DERIV_diff [OF P1 P2])
  moreover have "(exp (- q * T) * norm_cdf erf (?d1 S) + norm_pdf (?d1 S) * ?w * (S * exp (- q * T)))
            - K * exp (- r * T) * (norm_pdf (?d2 S) * ?w)
          = exp (- q * T) * norm_cdf erf (?d1 S)"
  proof -
    have "norm_pdf (?d1 S) * ?w * (S * exp (- q * T)) = (S * exp (- q * T) * norm_pdf (?d1 S)) * ?w"
      by (simp only: mult_ac)
    moreover have "K * exp (- r * T) * (norm_pdf (?d2 S) * ?w) = (K * exp (- r * T) * norm_pdf (?d2 S)) * ?w"
      by (simp only: mult.assoc)
    ultimately show ?thesis
      by (simp only: pdf_identity [OF pos])
  qed
  moreover have "call_price erf K T r sigma q =
      (\<lambda>s. s * exp (- q * T) * norm_cdf erf (?d1 s) - K * exp (- r * T) * norm_cdf erf (?d2 s))"
    by (rule ext) (simp only: call_price_def)
  ultimately show ?thesis by (simp only:)
qed

lemma put_price_deriv:
  assumes erf: "\<forall>x. (erf has_real_derivative 2 / sqrt pi * exp (- x\<^sup>2)) (at x)"
    and pos: "0 < S" "0 < K" "0 < T" "0 < sigma"
  shows "(put_price erf K T r sigma q has_real_derivative
           - (exp (- q * T) * norm_cdf erf (- d1_of S K T r sigma q))) (at S)"
proof -
  let ?d1 = "\<lambda>s. d1_of s K T r sigma q" and ?d2 = "\<lambda>s. d2_of s K T r sigma q"
  let ?w = "1 / (S * sigma * sqrt T)"
  have m1: "((\<lambda>s. - ?d1 s) has_real_derivative - ?w) (at S)"
    by (rule DERIV_minus [OF d1_of_deriv [OF pos]])
  have m2: "((\<lambda>s. - ?d2 s) has_real_derivative - ?w) (at S)"
    by (rule DERIV_minus [OF d2_of_deriv [OF pos]])
  have N1: "((\<lambda>s. norm_cdf erf (- ?d1 s)) has_real_derivative norm_pdf (- ?d1 S) * - ?w) (at S)"
    by (rule DERIV_chain2 [where f = "norm_cdf erf" and g = "\<lambda>s. - ?d1 s",
          OF norm_cdf_deriv [OF erf] m1])
  have N2: "((\<lambda>s. norm_cdf erf (- ?d2 s)) has_real_derivative norm_pdf (- ?d2 S) * - ?w) (at S)"
    by (rule DERIV_chain2 [where f = "norm_cdf erf" and g = "\<lambda>s. - ?d2 s",
          OF norm_cdf_deriv [OF erf] m2])
  have sa: "((\<lambda>s. s * exp (- q * T)) has_real_derivative exp (- q * T)) (at S)"
    by (auto intro!: derivative_eq_intros)
  have P1: "((\<lambda>s. s * exp (- q * T) * norm_cdf erf (- ?d1 s)) has_real_derivative
              exp (- q * T) * norm_cdf erf (- ?d1 S)
                + norm_pdf (- ?d1 S) * - ?w * (S * exp (- q * T))) (at S)"
    by (rule DERIV_mult [OF sa N1])
  have P2: "((\<lambda>s. K * exp (- r * T) * norm_cdf erf (- ?d2 s)) has_real_derivative
              K * exp (- r * T) * (norm_pdf (- ?d2 S) * - ?w)) (at S)"
    by (rule DERIV_cmult [OF N2])
  have "((\<lambda>s. K * exp (- r * T) * norm_cdf erf (- ?d2 s)
                - s * exp (- q * T) * norm_cdf erf (- ?d1 s))
          has_real_derivative
          K * exp (- r * T) * (norm_pdf (- ?d2 S) * - ?w)
            - (exp (- q * T) * norm_cdf erf (- ?d1 S)
                + norm_pdf (- ?d1 S) * - ?w * (S * exp (- q * T)))) (at S)"
    by (rule DERIV_diff [OF P2 P1])
  moreover have "K * exp (- r * T) * (norm_pdf (- ?d2 S) * - ?w)
            - (exp (- q * T) * norm_cdf erf (- ?d1 S)
                + norm_pdf (- ?d1 S) * - ?w * (S * exp (- q * T)))
          = - (exp (- q * T) * norm_cdf erf (- ?d1 S))"
  proof -
    have "norm_pdf (- ?d1 S) * - ?w * (S * exp (- q * T))
            = - ((S * exp (- q * T) * norm_pdf (?d1 S)) * ?w)"
      by (simp only: norm_pdf_even mult_minus_right mult_minus_left mult_ac)
    moreover have "K * exp (- r * T) * (norm_pdf (- ?d2 S) * - ?w)
            = - ((K * exp (- r * T) * norm_pdf (?d2 S)) * ?w)"
      by (simp only: norm_pdf_even mult_minus_right mult_minus_left mult_ac)
    ultimately show ?thesis
      by (simp only: pdf_identity [OF pos])
  qed
  moreover have "put_price erf K T r sigma q =
      (\<lambda>s. K * exp (- r * T) * norm_cdf erf (- ?d2 s)
             - s * exp (- q * T) * norm_cdf erf (- ?d1 s))"
    by (rule ext) (simp only: put_price_def)
  ultimately show ?thesis by (simp only:)
qed

text \<open>
  Monotonicity of the closed form in the spot, in exact real arithmetic, for an \<open>erf\<close>
  with the derivative \<open>2 / sqrt pi * exp (- x^2)\<close> and the lower bound \<open>- 1\<close>. The
  double-precision results of \<open>prices.py\<close> do not inherit this order: deep out of the
  money the difference \<open>S * N(d1) - K * N(d2)\<close> of two rounded products cancels.
\<close>

lemma call_price_mono:
  assumes erf: "\<forall>x. (erf has_real_derivative 2 / sqrt pi * exp (- x\<^sup>2)) (at x)"
    and lb: "\<forall>x. - 1 \<le> erf x"
    and pos: "0 < K" "0 < T" "0 < sigma" "0 < S1" and le: "S1 \<le> S2"
  shows "call_price erf K T r sigma q S1 \<le> call_price erf K T r sigma q S2"
proof (rule DERIV_nonneg_imp_nondecreasing [OF le])
  fix s assume "S1 \<le> s" "s \<le> S2"
  then have s: "0 < s" using pos by simp
  have "(call_price erf K T r sigma q has_real_derivative
           exp (- q * T) * norm_cdf erf (d1_of s K T r sigma q)) (at s)"
    by (rule call_price_deriv [OF erf s pos(1-3)])
  moreover have "0 \<le> exp (- q * T) * norm_cdf erf (d1_of s K T r sigma q)"
    by (simp add: norm_cdf_nonneg [OF lb])
  ultimately show "\<exists>y. (call_price erf K T r sigma q has_real_derivative y) (at s) \<and> 0 \<le> y"
    by blast
qed

lemma put_price_antimono:
  assumes erf: "\<forall>x. (erf has_real_derivative 2 / sqrt pi * exp (- x\<^sup>2)) (at x)"
    and lb: "\<forall>x. - 1 \<le> erf x"
    and pos: "0 < K" "0 < T" "0 < sigma" "0 < S1" and le: "S1 \<le> S2"
  shows "put_price erf K T r sigma q S2 \<le> put_price erf K T r sigma q S1"
proof (rule DERIV_nonpos_imp_nonincreasing [OF le])
  fix s assume "S1 \<le> s" "s \<le> S2"
  then have s: "0 < s" using pos by simp
  have "(put_price erf K T r sigma q has_real_derivative
           - (exp (- q * T) * norm_cdf erf (- d1_of s K T r sigma q))) (at s)"
    by (rule put_price_deriv [OF erf s pos(1-3)])
  moreover have "- (exp (- q * T) * norm_cdf erf (- d1_of s K T r sigma q)) \<le> 0"
    by (simp add: norm_cdf_nonneg [OF lb])
  ultimately show "\<exists>y. (put_price erf K T r sigma q has_real_derivative y) (at s) \<and> y \<le> 0"
    by blast
qed





section \<open>Rounding to binary64: error bound and evaluation\<close>

lemma pow2_powr: "pow2 q = 2 powr of_int q"
proof (cases "0 \<le> q")
  case True
  then have "2 powr of_int q = (2::real) powr of_nat (nat q)" by simp
  also have "\<dots> = 2 ^ nat q" by (simp only: powr_realpow zero_less_numeral)
  finally show ?thesis using True by (simp add: pow2_def)
next
  case False
  then have "2 powr of_int q = (2::real) powr (- of_nat (nat (- q)))" by simp
  also have "\<dots> = 1 / 2 powr of_nat (nat (- q))" by (simp only: powr_minus_divide)
  also have "\<dots> = 1 / 2 ^ nat (- q)" by (simp only: powr_realpow zero_less_numeral)
  finally show ?thesis using False by (simp add: pow2_def)
qed

lemma floor_log_binade:
  assumes "2 powr of_int e \<le> \<bar>z\<bar>" and "\<bar>z\<bar> < 2 powr of_int (e + 1)"
  shows "\<lfloor>log 2 \<bar>z\<bar>\<rfloor> = e"
proof -
  have pos: "0 < \<bar>z\<bar>"
    using assms(1) powr_gt_zero [of 2 "of_int e"] by linarith
  have "of_int e \<le> log 2 \<bar>z\<bar>"
    using assms(1) pos by (simp add: le_log_iff)
  moreover have "log 2 \<bar>z\<bar> < of_int e + 1"
    using assms(2) pos by (simp add: log_less_iff)
  ultimately show ?thesis by (simp add: floor_eq_iff)
qed

lemma bitlen_real_bounds:
  assumes "0 < k"
  shows "pow2 (bitlen k - 1) \<le> of_int k" and "of_int k + 1 \<le> pow2 (bitlen k)"
proof -
  have b: "1 \<le> bitlen k" using assms by (simp add: bitlen_alt_def)
  have lo: "2 ^ nat (bitlen k - 1) \<le> k" and hi: "k < 2 ^ nat (bitlen k)"
    using bitlen_bounds [OF assms] by simp_all
  have "real_of_int (2 ^ nat (bitlen k - 1)) \<le> of_int k"
    using lo by (simp only: of_int_le_iff)
  then show "pow2 (bitlen k - 1) \<le> of_int k"
    using b by (simp add: pow2_def)
  have "k + 1 \<le> 2 ^ nat (bitlen k)" using hi by simp
  then have "real_of_int (k + 1) \<le> of_int (2 ^ nat (bitlen k))"
    by (simp only: of_int_le_iff)
  then show "of_int k + 1 \<le> pow2 (bitlen k)"
    using b by (simp add: pow2_def)
qed

lemma binade_floor_log:
  assumes "z \<noteq> 0"
  shows "binade z = \<lfloor>log 2 \<bar>z\<bar>\<rfloor>"
proof (cases "1 \<le> \<bar>z\<bar>")
  case True
  let ?n = "\<lfloor>\<bar>z\<bar>\<rfloor>"
  have n: "0 < ?n" using True by simp
  have fl: "of_int ?n \<le> \<bar>z\<bar>" "\<bar>z\<bar> < of_int ?n + 1" by linarith+
  have "pow2 (bitlen ?n - 1) \<le> \<bar>z\<bar>"
    using bitlen_real_bounds(1) [OF n] fl(1) by linarith
  moreover have "\<bar>z\<bar> < pow2 (bitlen ?n)"
    using bitlen_real_bounds(2) [OF n] fl(2) by linarith
  ultimately have "pow2 (bitlen ?n - 1) \<le> \<bar>z\<bar>" "\<bar>z\<bar> < pow2 (bitlen ?n - 1 + 1)"
    by simp_all
  then have "\<lfloor>log 2 \<bar>z\<bar>\<rfloor> = bitlen ?n - 1"
    by (intro floor_log_binade) (simp_all only: pow2_powr)
  then show ?thesis using True by (simp add: binade_def)
next
  case False
  let ?y = "1 / \<bar>z\<bar>"
  let ?k = "\<lceil>?y\<rceil> - 1"
  have z: "0 < \<bar>z\<bar>" "\<bar>z\<bar> < 1" using assms False by simp_all
  then have y: "1 < ?y" by simp
  then have k: "0 < ?k" by simp
  have ky: "of_int ?k < ?y" "?y \<le> of_int ?k + 1" by linarith+
  let ?b = "bitlen ?k"
  from bitlen_real_bounds [OF k] ky
  have lo: "pow2 (?b - 1) < ?y" and hi: "?y \<le> pow2 ?b" by linarith+
  have p1: "0 < pow2 (?b - 1)" and p2: "0 < pow2 ?b" by (simp_all add: pow2_powr)
  have "1 / pow2 ?b \<le> \<bar>z\<bar>"
    using hi z(1) p2 by (simp add: field_simps)
  moreover have "1 / pow2 ?b = 2 powr of_int (- ?b)"
    by (simp add: pow2_powr powr_minus_divide)
  ultimately have a: "2 powr of_int (- ?b) \<le> \<bar>z\<bar>" by simp
  have "\<bar>z\<bar> < 1 / pow2 (?b - 1)"
    using lo z(1) p1 by (simp add: field_simps)
  moreover have "1 / pow2 (?b - 1) = 2 powr of_int (- ?b + 1)"
  proof -
    have "1 / pow2 (?b - 1) = 2 powr (- of_int (?b - 1))"
      by (simp only: pow2_powr powr_minus_divide)
    also have "- real_of_int (?b - 1) = of_int (- ?b + 1)" by simp
    finally show ?thesis .
  qed
  ultimately have b: "\<bar>z\<bar> < 2 powr of_int (- ?b + 1)" by simp
  have "\<lfloor>log 2 \<bar>z\<bar>\<rfloor> = - ?b"
    by (rule floor_log_binade [OF a b])
  then show ?thesis using False by (simp add: binade_def)
qed

lemma ulp_powr:
  assumes "z \<noteq> 0"
  shows "ulp z = 2 powr of_int (max \<lfloor>log 2 \<bar>z\<bar>\<rfloor> (- 1022) - 52)"
  by (simp only: ulp_def binade_floor_log [OF assms] pow2_powr)

lemma round_half_even_error: "\<bar>of_int (round_half_even y) - y\<bar> \<le> 1 / 2"
proof -
  have "of_int \<lfloor>y\<rfloor> \<le> y" "y < of_int \<lfloor>y\<rfloor> + 1" by linarith+
  then show ?thesis
    by (auto simp: round_half_even_def Let_def)
qed

lemma round_half_even_sign:
  "0 \<le> y \<Longrightarrow> 0 \<le> round_half_even y" "y \<le> 0 \<Longrightarrow> round_half_even y \<le> 0"
proof -
  have f: "of_int \<lfloor>y\<rfloor> \<le> y" "y < of_int \<lfloor>y\<rfloor> + 1" by linarith+
  show "0 \<le> y \<Longrightarrow> 0 \<le> round_half_even y"
    by (auto simp: round_half_even_def Let_def)
  show "y \<le> 0 \<Longrightarrow> round_half_even y \<le> 0"
  proof -
    assume y: "y \<le> 0"
    show ?thesis
    proof (cases "y = 0")
      case True
      then show ?thesis by (simp add: round_half_even_def)
    next
      case False
      with y have "\<lfloor>y\<rfloor> \<le> - 1" by (simp add: floor_le_iff)
      then show ?thesis by (auto simp: round_half_even_def Let_def)
    qed
  qed
qed

lemma ulp_pos: "0 < ulp z"
  by (simp add: ulp_def pow2_powr)

lemma ulp_le:
  assumes "z \<noteq> 0"
  shows "ulp z \<le> \<bar>z\<bar> / 2 ^ 52 + 1 / 2 ^ 1074"
proof -
  let ?e = "\<lfloor>log 2 \<bar>z\<bar>\<rfloor>"
  have pos: "0 < \<bar>z\<bar>" using assms by simp
  have "2 powr of_int ?e \<le> 2 powr log 2 \<bar>z\<bar>"
    by (rule powr_mono) simp_all
  then have e: "2 powr of_int ?e \<le> \<bar>z\<bar>"
    using pos by simp
  show ?thesis
  proof (cases "- 1022 \<le> ?e")
    case True
    then have m: "max ?e (- 1022) = ?e"
      by (rule max.absorb1)
    have "ulp z = 2 powr of_int (?e - 52)"
      by (simp only: ulp_powr [OF assms] m)
    also have "\<dots> = 2 powr of_int ?e / 2 powr 52"
      by (simp only: of_int_diff of_int_numeral powr_diff)
    also have "\<dots> = 2 powr of_int ?e / 2 ^ 52"
      by simp
    also have "\<dots> \<le> \<bar>z\<bar> / 2 ^ 52"
      using e by (simp add: divide_right_mono)
    finally show ?thesis by (simp add: add_increasing2)
  next
    case False
    then have m: "max ?e (- 1022) = - 1022"
      by (intro max.absorb2) simp
    have "ulp z = 2 powr of_int (- 1022 - 52)"
      by (simp only: ulp_powr [OF assms] m)
    also have "\<dots> = 2 powr (- 1074)"
      by simp
    also have "\<dots> = 1 / 2 ^ 1074"
      by (simp add: powr_minus_divide)
    finally show ?thesis using pos by (simp add: add_increasing)
  qed
qed

lemma rnd_error: "\<bar>rnd z - z\<bar> \<le> \<bar>z\<bar> / 2 ^ 53 + 1 / 2 ^ 1075"
proof (cases "z = 0")
  case True
  then show ?thesis by (simp add: rnd_def)
next
  case False
  let ?u = "ulp z"
  have u: "0 < ?u" by (rule ulp_pos)
  have "rnd z - z = ?u * (of_int (round_half_even (z / ?u)) - z / ?u)"
    using False u by (simp add: rnd_def algebra_simps)
  then have "\<bar>rnd z - z\<bar> = ?u * \<bar>of_int (round_half_even (z / ?u)) - z / ?u\<bar>"
    using u by (simp add: abs_mult)
  also have "\<dots> \<le> ?u * (1 / 2)"
    using u round_half_even_error [of "z / ?u"] by (intro mult_left_mono) simp_all
  also have "\<dots> \<le> (\<bar>z\<bar> / 2 ^ 52 + 1 / 2 ^ 1074) * (1 / 2)"
    using ulp_le [OF False] by (intro mult_right_mono) simp_all
  also have "\<dots> = \<bar>z\<bar> / 2 ^ 53 + 1 / 2 ^ 1075"
    by (simp add: algebra_simps)
  finally show ?thesis .
qed

lemma rnd_sign: "z \<le> 0 \<Longrightarrow> rnd z \<le> 0" "0 \<le> z \<Longrightarrow> 0 \<le> rnd z"
proof -
  have u: "0 < ulp z" by (rule ulp_pos)
  show "z \<le> 0 \<Longrightarrow> rnd z \<le> 0"
  proof -
    assume "z \<le> 0"
    then have "z / ulp z \<le> 0" using u by (simp add: divide_nonpos_pos)
    then have "round_half_even (z / ulp z) \<le> 0" by (rule round_half_even_sign)
    then have "ulp z * of_int (round_half_even (z / ulp z)) \<le> 0"
      using u by (simp add: mult_nonneg_nonpos)
    then show ?thesis by (simp add: rnd_def)
  qed
  show "0 \<le> z \<Longrightarrow> 0 \<le> rnd z"
  proof -
    assume "0 \<le> z"
    then have "0 \<le> z / ulp z" using u by simp
    then have "0 \<le> round_half_even (z / ulp z)" by (rule round_half_even_sign)
    then have "0 \<le> ulp z * of_int (round_half_even (z / ulp z))"
      using u by simp
    then show ?thesis by (simp add: rnd_def)
  qed
qed

lemma unit_roundoff_bounds: "0 < unit_roundoff" "unit_roundoff \<le> 1 / 8"
  by (simp_all add: unit_roundoff_def)

lemma tiny_bounds: "0 < tiny" "tiny \<le> 1"
proof -
  show "0 < tiny" by (simp add: tiny_def)
  have "(1::real) \<le> 2 ^ 1075" by (rule one_le_power) simp
  then show "tiny \<le> 1" by (simp add: tiny_def)
qed

lemma fl_of_step:
  assumes z: "\<bar>z\<bar> \<le> Z" and Z: "Z \<le> 2 ^ 1020"
  shows "\<exists>p. fl_of z = Fin p
           \<and> z - (unit_roundoff * Z + tiny) \<le> p \<and> p \<le> z + (unit_roundoff * Z + tiny)
           \<and> - (9 / 8 * Z + tiny) \<le> p \<and> p \<le> 9 / 8 * Z + tiny"
proof -
  have Z0: "0 \<le> Z" using z by linarith
  have "\<bar>rnd z - z\<bar> \<le> \<bar>z\<bar> / 2 ^ 53 + 1 / 2 ^ 1075" by (rule rnd_error)
  then have e: "\<bar>rnd z - z\<bar> \<le> unit_roundoff * \<bar>z\<bar> + tiny"
    by (simp add: unit_roundoff_def tiny_def)
  have "unit_roundoff * \<bar>z\<bar> \<le> unit_roundoff * Z"
    using z unit_roundoff_bounds(1) by (intro mult_left_mono) simp_all
  with e have err: "\<bar>rnd z - z\<bar> \<le> unit_roundoff * Z + tiny" by linarith
  have "unit_roundoff * Z \<le> 1 / 8 * Z"
    using Z0 unit_roundoff_bounds(2) by (intro mult_right_mono) simp_all
  with err z have mag: "\<bar>rnd z\<bar> \<le> 9 / 8 * Z + tiny" by linarith
  have "(2::real) ^ 1024 = 16 * 2 ^ 1020" by simp
  moreover have "(1::real) \<le> 2 ^ 1020" by (rule one_le_power) simp
  ultimately have "9 / 8 * Z + tiny < 2 ^ 1024"
    using Z tiny_bounds(2) by linarith
  with mag have "\<not> 2 ^ 1024 \<le> rnd z" "\<not> rnd z \<le> - (2 ^ 1024)" by linarith+
  then have "fl_of z = Fin (rnd z)" by (simp add: fl_of_def Let_def)
  moreover have "z - (unit_roundoff * Z + tiny) \<le> rnd z" "rnd z \<le> z + (unit_roundoff * Z + tiny)"
    using err by linarith+
  moreover have "- (9 / 8 * Z + tiny) \<le> rnd z" "rnd z \<le> 9 / 8 * Z + tiny"
    using mag by linarith+
  ultimately show ?thesis by blast
qed

lemma fl_sub_Fin: "fl_sub (Fin a) (Fin b) = fl_of (a - b)"
  by (simp add: fl_sub_def)

lemma py_max0_Fin: "py_max0 (Fin t) = Fin (max 0 t)"
  by (simp add: py_max0_def max_def)

lemma spread_leg:
  assumes z: "\<bar>a - b\<bar> \<le> G" and G: "G \<le> 2 ^ 1000"
  shows "\<exists>m. py_max0 (fl_sub (Fin a) (Fin b)) = Fin m
           \<and> max 0 (a - b) - (unit_roundoff * G + tiny) \<le> m
           \<and> m \<le> max 0 (a - b) + (unit_roundoff * G + tiny)
           \<and> 0 \<le> m \<and> m \<le> 9 / 8 * G + tiny"
proof -
  have "(2::real) ^ 1020 = 2 ^ 1000 * 2 ^ 20" by (simp flip: power_add)
  moreover have "(0::real) \<le> 2 ^ 1000" by simp
  ultimately have "G \<le> 2 ^ 1020" using G by (simp add: mult.commute) 
  from fl_of_step [OF z this] obtain t where t: "fl_of (a - b) = Fin t"
    "a - b - (unit_roundoff * G + tiny) \<le> t" "t \<le> a - b + (unit_roundoff * G + tiny)"
    "- (9 / 8 * G + tiny) \<le> t" "t \<le> 9 / 8 * G + tiny"
    by blast
  have G0: "0 \<le> G" using z by linarith
  have pos: "0 \<le> unit_roundoff * G + tiny" "0 \<le> 9 / 8 * G + tiny"
    using G0 unit_roundoff_bounds(1) tiny_bounds(1) by (simp_all add: add_nonneg_nonneg)
  have "py_max0 (fl_sub (Fin a) (Fin b)) = Fin (max 0 t)"
    by (simp only: fl_sub_Fin t(1) py_max0_Fin)
  moreover have "max 0 (a - b) - (unit_roundoff * G + tiny) \<le> max 0 t"
    using t(2) pos(1) by linarith
  moreover have "max 0 t \<le> max 0 (a - b) + (unit_roundoff * G + tiny)"
    using t(3) pos(1) by linarith
  moreover have "0 \<le> max 0 t" by simp
  moreover have "max 0 t \<le> 9 / 8 * G + tiny"
    using t(5) pos(2) by simp
  ultimately show ?thesis by blast
qed

lemma fl_add_Fin: "fl_add (Fin a) (Fin b) = fl_of (a + b)"
  by simp

lemma fl_of_step_lin:
  assumes z: "\<bar>z\<bar> \<le> k * G + l * tiny"
    and G: "0 \<le> G" "G \<le> 2 ^ 1000" and k: "0 \<le> k" "k \<le> 16" and l: "0 \<le> l" "l \<le> 16"
  shows "\<exists>p. fl_of z = Fin p
           \<and> z - (k * (unit_roundoff * G) + (l / 8 + 1) * tiny) \<le> p
           \<and> p \<le> z + (k * (unit_roundoff * G) + (l / 8 + 1) * tiny)
           \<and> \<bar>p\<bar> \<le> 9 / 8 * k * G + (9 / 8 * l + 1) * tiny"
proof -
  let ?Z = "k * G + l * tiny"
  have "k * G \<le> 16 * 2 ^ 1000"
    using G k by (intro mult_mono) simp_all
  moreover have "l * tiny \<le> 16 * 1"
    using l tiny_bounds by (intro mult_mono) simp_all
  moreover have "(2::real) ^ 1020 = 2 ^ 1000 * 2 ^ 20" by (simp flip: power_add)
  moreover have "(1::real) \<le> 2 ^ 1000" by (rule one_le_power) simp
  ultimately have Z: "?Z \<le> 2 ^ 1020" by simp
  from fl_of_step [OF z Z] obtain p where p: "fl_of z = Fin p"
    "z - (unit_roundoff * ?Z + tiny) \<le> p" "p \<le> z + (unit_roundoff * ?Z + tiny)"
    "- (9 / 8 * ?Z + tiny) \<le> p" "p \<le> 9 / 8 * ?Z + tiny"
    by blast
  have "unit_roundoff * (l * tiny) \<le> 1 / 8 * (l * tiny)"
    using l tiny_bounds(1) unit_roundoff_bounds(2) by (intro mult_right_mono) simp_all
  then have "unit_roundoff * ?Z \<le> k * (unit_roundoff * G) + l / 8 * tiny"
    by (simp add: algebra_simps)
  then have e: "unit_roundoff * ?Z + tiny \<le> k * (unit_roundoff * G) + (l / 8 + 1) * tiny"
    by (simp add: algebra_simps)
  have m: "9 / 8 * ?Z + tiny = 9 / 8 * k * G + (9 / 8 * l + 1) * tiny"
    by (simp add: algebra_simps)
  have "z - (k * (unit_roundoff * G) + (l / 8 + 1) * tiny) \<le> p"
    using p(2) e by linarith
  moreover have "p \<le> z + (k * (unit_roundoff * G) + (l / 8 + 1) * tiny)"
    using p(3) e by linarith
  moreover have "\<bar>p\<bar> \<le> 9 / 8 * k * G + (9 / 8 * l + 1) * tiny"
    using p(4,5) m by linarith
  ultimately show ?thesis using p(1) by blast
qed

lemma payoff_rounding:
  assumes ord: "long_put st \<le> short_put st" "short_put st \<le> short_call st"
      "short_call st \<le> long_call st"
    and G: "G = \<bar>credit\<bar> + \<bar>x\<bar> + \<bar>long_put st\<bar> + \<bar>long_call st\<bar>"
    and big: "G \<le> 2 ^ 1000"
  shows "\<exists>p. iron_condor_payoff x st credit = Fin p
           \<and> \<bar>p - payoff_exact x st credit\<bar> \<le> 32 * (unit_roundoff * G) + 32 * tiny"
proof -
  let ?lp = "long_put st" and ?sp = "short_put st"
  let ?sc = "short_call st" and ?lc = "long_call st"
  let ?U = "unit_roundoff * G"
  have G0: "0 \<le> G" using G by simp
  have U0: "0 \<le> ?U" using G0 unit_roundoff_bounds(1) by simp
  have s0: "0 \<le> tiny" using tiny_bounds(1) by simp
  have d: "\<bar>?sp - x\<bar> \<le> G" "\<bar>?lp - x\<bar> \<le> G" "\<bar>x - ?sc\<bar> \<le> G" "\<bar>x - ?lc\<bar> \<le> G"
    using ord G by linarith+
  have c: "\<bar>credit\<bar> \<le> G" using G by linarith
  obtain a1 where a1: "py_max0 (fl_sub (Fin ?sp) (Fin x)) = Fin a1"
      "max 0 (?sp - x) - (?U + tiny) \<le> a1" "a1 \<le> max 0 (?sp - x) + (?U + tiny)"
      "0 \<le> a1" "a1 \<le> 9 / 8 * G + tiny"
    using spread_leg [OF d(1) big] by blast
  obtain a2 where a2: "py_max0 (fl_sub (Fin ?lp) (Fin x)) = Fin a2"
      "max 0 (?lp - x) - (?U + tiny) \<le> a2" "a2 \<le> max 0 (?lp - x) + (?U + tiny)"
      "0 \<le> a2" "a2 \<le> 9 / 8 * G + tiny"
    using spread_leg [OF d(2) big] by blast
  obtain a3 where a3: "py_max0 (fl_sub (Fin x) (Fin ?sc)) = Fin a3"
      "max 0 (x - ?sc) - (?U + tiny) \<le> a3" "a3 \<le> max 0 (x - ?sc) + (?U + tiny)"
      "0 \<le> a3" "a3 \<le> 9 / 8 * G + tiny"
    using spread_leg [OF d(3) big] by blast
  obtain a4 where a4: "py_max0 (fl_sub (Fin x) (Fin ?lc)) = Fin a4"
      "max 0 (x - ?lc) - (?U + tiny) \<le> a4" "a4 \<le> max 0 (x - ?lc) + (?U + tiny)"
      "0 \<le> a4" "a4 \<le> 9 / 8 * G + tiny"
    using spread_leg [OF d(4) big] by blast
  have z1: "\<bar>credit - a1\<bar> \<le> 3 * G + 1 * tiny"
    using c a1(4,5) G0 s0 by linarith
  obtain p1 where p1: "fl_of (credit - a1) = Fin p1"
      "credit - a1 - (3 * ?U + 9 / 8 * tiny) \<le> p1"
      "p1 \<le> credit - a1 + (3 * ?U + 9 / 8 * tiny)"
      "\<bar>p1\<bar> \<le> 27 / 8 * G + 17 / 8 * tiny"
    using fl_of_step_lin [OF z1 G0 big] by auto
  have z2: "\<bar>p1 + a2\<bar> \<le> 5 * G + 4 * tiny"
    using p1(4) a2(4,5) G0 s0 by linarith
  obtain p2 where p2: "fl_of (p1 + a2) = Fin p2"
      "p1 + a2 - (5 * ?U + 3 / 2 * tiny) \<le> p2"
      "p2 \<le> p1 + a2 + (5 * ?U + 3 / 2 * tiny)"
      "\<bar>p2\<bar> \<le> 45 / 8 * G + 11 / 2 * tiny"
    using fl_of_step_lin [OF z2 G0 big] by auto
  have z3: "\<bar>p2 - a3\<bar> \<le> 7 * G + 7 * tiny"
    using p2(4) a3(4,5) G0 s0 by linarith
  obtain p3 where p3: "fl_of (p2 - a3) = Fin p3"
      "p2 - a3 - (7 * ?U + 15 / 8 * tiny) \<le> p3"
      "p3 \<le> p2 - a3 + (7 * ?U + 15 / 8 * tiny)"
      "\<bar>p3\<bar> \<le> 63 / 8 * G + 71 / 8 * tiny"
    using fl_of_step_lin [OF z3 G0 big] by auto
  have z4: "\<bar>p3 + a4\<bar> \<le> 9 * G + 10 * tiny"
    using p3(4) a4(4,5) G0 s0 by linarith
  obtain p4 where p4: "fl_of (p3 + a4) = Fin p4"
      "p3 + a4 - (9 * ?U + 9 / 4 * tiny) \<le> p4"
      "p4 \<le> p3 + a4 + (9 * ?U + 9 / 4 * tiny)"
    using fl_of_step_lin [OF z4 G0 big] by auto
  have run: "iron_condor_payoff x st credit = Fin p4"
    by (simp only: iron_condor_payoff_def Let_def a1(1) a2(1) a3(1) a4(1))
       (simp only: fl_sub_Fin fl_add_Fin p1(1) p2(1) p3(1) p4(1))
  have lo: "payoff_exact x st credit - (32 * ?U + 32 * tiny) \<le> p4"
    unfolding payoff_exact_def
    using a1(3) a2(2) a3(3) a4(2) p1(2) p2(2) p3(2) p4(2) U0 s0 by linarith
  have hi: "p4 \<le> payoff_exact x st credit + (32 * ?U + 32 * tiny)"
    unfolding payoff_exact_def
    using a1(2) a2(3) a3(2) a4(3) p1(3) p2(3) p3(3) p4(3) U0 s0 by linarith
  from lo hi have "\<bar>p4 - payoff_exact x st credit\<bar> \<le> 32 * ?U + 32 * tiny"
    by linarith
  with run show ?thesis by blast
qed

lemma payoff_exact_bounds:
  assumes "long_call st - short_call st = width" and "short_put st - long_put st = width"
    and "0 < width"
    and "long_put st \<le> short_put st" and "short_put st \<le> short_call st"
    and "short_call st \<le> long_call st"
  shows "credit - width \<le> payoff_exact x st credit \<and> payoff_exact x st credit \<le> credit"
  using assms by (auto simp: payoff_exact_def max_def)

lemma fl_of_binade:
  assumes lo: "2 powr of_int e \<le> \<bar>z\<bar>" and hi: "\<bar>z\<bar> < 2 powr of_int (e + 1)"
    and e: "- 1022 \<le> e" "e \<le> 1000"
  shows "fl_of z =
           Fin (2 powr of_int (e - 52) * of_int (round_half_even (z / 2 powr of_int (e - 52))))"
proof -
  have z0: "z \<noteq> 0"
    using lo powr_gt_zero [of 2 "of_int e"] by auto
  have "max \<lfloor>log 2 \<bar>z\<bar>\<rfloor> (- 1022) = e"
    using floor_log_binade [OF lo hi] e(1) by simp
  then have u: "ulp z = 2 powr of_int (e - 52)"
    by (simp only: ulp_powr [OF z0])
  have r: "rnd z = 2 powr of_int (e - 52) * of_int (round_half_even (z / 2 powr of_int (e - 52)))"
    using z0 by (simp only: rnd_def u if_False)
  have "2 powr of_int (e + 1) \<le> 2 powr (1020::real)"
    using e(2) by (intro powr_mono) simp_all
  then have "\<bar>z\<bar> \<le> 2 ^ 1020" using hi by simp
  from fl_of_step [OF this order_refl] obtain p where p: "fl_of z = Fin p" by blast
  have "\<not> 2 ^ 1024 \<le> rnd z \<and> \<not> rnd z \<le> - (2 ^ 1024)"
    using p by (auto simp: fl_of_def Let_def split: if_splits)
  then have "fl_of z = Fin (rnd z)" by (simp add: fl_of_def Let_def)
  then show ?thesis by (simp only: r)
qed

lemma round_half_even_int: "round_half_even (of_int m) = m"
  by (simp add: round_half_even_def)

lemma fl_of_exact:
  assumes lo: "2 powr of_int e \<le> \<bar>z\<bar>" and hi: "\<bar>z\<bar> < 2 powr of_int (e + 1)"
    and e: "- 1022 \<le> e" "e \<le> 1000"
    and m: "z = 2 powr of_int (e - 52) * of_int m"
  shows "fl_of z = Fin z"
proof -
  have "z / 2 powr of_int (e - 52) = of_int m"
    by (simp add: m)
  then show ?thesis
    using fl_of_binade [OF lo hi e] m by (simp only: round_half_even_int)
qed

lemma py_max0_nonpos: "z \<le> 0 \<Longrightarrow> py_max0 (fl_of z) = Fin 0"
proof -
  assume "z \<le> 0"
  then have "rnd z \<le> 0" by (rule rnd_sign)
  then show ?thesis
    by (auto simp: py_max0_def fl_of_def Let_def)
qed

section \<open>The pricer\<close>

text \<open>
  C1 (as amended). In the general regime \<open>T > 0\<close>, \<open>sigma > 0\<close>, and when the ratio
  \<open>S / K\<close> is positive (\<open>K\<close> is not zero), \<open>black_scholes\<close> returns the closed-form
  Greeks: with \<open>d1 = (ln (S/K) + (r - q + sigma^2/2) T) / (sigma sqrt T)\<close> and
  \<open>d2 = d1 - sigma sqrt T\<close>, the price, delta, rho and theta of a call and of a put are
  the formulas of the specification, and gamma and vega are the same for both kinds.
\<close>

theorem black_scholes_closed_form:
  assumes "0 < T" and "0 < sigma" and "K \<noteq> 0" and "0 < S / K"
  shows "(let d1 = (ln (S / K) + (r - q + 0.5 * sigma\<^sup>2) * T) / (sigma * sqrt T);
              d2 = d1 - sigma * sqrt T;
              N = norm_cdf erf; phi = norm_pdf
          in black_scholes erf S K T r sigma ''call'' q =
               Inr \<lparr>price = S * exp (- q * T) * N d1 - K * exp (- r * T) * N d2,
                    delta = exp (- q * T) * N d1,
                    gamma = exp (- q * T) * phi d1 / (S * sigma * sqrt T),
                    vega = S * exp (- q * T) * phi d1 * sqrt T,
                    theta = - (S * sigma * exp (- q * T) * phi d1) / (2 * sqrt T)
                            - r * K * exp (- r * T) * N d2 + q * S * exp (- q * T) * N d1,
                    rho = K * T * exp (- r * T) * N d2\<rparr>
            \<and> black_scholes erf S K T r sigma ''put'' q =
               Inr \<lparr>price = K * exp (- r * T) * N (- d2) - S * exp (- q * T) * N (- d1),
                    delta = exp (- q * T) * (N d1 - 1),
                    gamma = exp (- q * T) * phi d1 / (S * sigma * sqrt T),
                    vega = S * exp (- q * T) * phi d1 * sqrt T,
                    theta = - (S * sigma * exp (- q * T) * phi d1) / (2 * sqrt T)
                            + r * K * exp (- r * T) * N (- d2)
                            - q * S * exp (- q * T) * N (- d1),
                    rho = - K * T * exp (- r * T) * N (- d2)\<rparr>)"
  using assms
  by (simp add: black_scholes_general lower_call lower_put closed_form_def d1_of_def d2_of_def
      Let_def)

theorem black_scholes_closed_form_witness:
  "(0::real) < 1 \<and> (1::real) \<noteq> 0 \<and> (0::real) < 1 / 1
   \<and> black_scholes erf_real 1 1 1 0 1 ''call'' 0 =
       Inr \<lparr>price = norm_cdf erf_real (1 / 2) - norm_cdf erf_real (- (1 / 2)),
            delta = norm_cdf erf_real (1 / 2),
            gamma = norm_pdf (1 / 2),
            vega = norm_pdf (1 / 2),
            theta = - (norm_pdf (1 / 2) / 2),
            rho = norm_cdf erf_real (- (1 / 2))\<rparr>
   \<and> black_scholes erf_real 1 1 1 0 1 ''put'' 0 =
       Inr \<lparr>price = norm_cdf erf_real (1 / 2) - norm_cdf erf_real (- (1 / 2)),
            delta = norm_cdf erf_real (1 / 2) - 1,
            gamma = norm_pdf (1 / 2),
            vega = norm_pdf (1 / 2),
            theta = - (norm_pdf (1 / 2) / 2),
            rho = - norm_cdf erf_real (1 / 2)\<rparr>"
  using black_scholes_closed_form [of 1 1 1 1 0 0 erf_real]
  by (simp add: Let_def)

text \<open>
  The claim as written covers every input with \<open>T > 0\<close> and \<open>sigma > 0\<close>; at the spot
  \<open>S = 0\<close> the logarithm raises and no Greeks are returned.
\<close>

theorem black_scholes_closed_form_counterexample:
  "black_scholes erf_real 0 1 1 0 1 ''call'' 0 = Inl ValueError"
  by (simp add: black_scholes_def Let_def then_res_def math_sqrt_def py_div_def math_log_def)

text \<open>
  C2. At \<open>T = 0\<close> the price is the undiscounted intrinsic value, \<open>max 0 (S - K)\<close> for a
  call and \<open>max 0 (K - S)\<close> for a put, and delta, gamma, vega, theta and rho are 0, for
  every \<open>S\<close>, \<open>K\<close>, \<open>r\<close>, \<open>sigma\<close> and \<open>q\<close>.
\<close>

theorem black_scholes_at_expiry:
  "black_scholes erf S K 0 r sigma ''call'' q =
     Inr \<lparr>price = max 0 (S - K), delta = 0, gamma = 0, vega = 0, theta = 0, rho = 0\<rparr>
   \<and> black_scholes erf S K 0 r sigma ''put'' q =
     Inr \<lparr>price = max 0 (K - S), delta = 0, gamma = 0, vega = 0, theta = 0, rho = 0\<rparr>"
  by (simp add: black_scholes_expiry lower_call lower_put)

text \<open>
  C3. At \<open>sigma = 0\<close> and \<open>T > 0\<close> the price is the discounted intrinsic value of the
  forward \<open>F = S * exp (- q * T)\<close>: \<open>exp (- r * T) * max 0 (F - K)\<close> for a call,
  \<open>exp (- r * T) * max 0 (K - F)\<close> for a put; the five other fields are 0.
\<close>

theorem black_scholes_zero_volatility:
  assumes "0 < T"
  shows "black_scholes erf S K T r 0 ''call'' q =
           Inr \<lparr>price = exp (- r * T) * max 0 (S * exp (- q * T) - K),
                delta = 0, gamma = 0, vega = 0, theta = 0, rho = 0\<rparr>
         \<and> black_scholes erf S K T r 0 ''put'' q =
           Inr \<lparr>price = exp (- r * T) * max 0 (K - S * exp (- q * T)),
                delta = 0, gamma = 0, vega = 0, theta = 0, rho = 0\<rparr>"
  using assms by (simp add: black_scholes_zero_vol lower_call lower_put)

theorem black_scholes_zero_volatility_witness:
  "(0::real) < 1
   \<and> black_scholes erf_real 3 1 1 0 0 ''call'' 0 =
       Inr \<lparr>price = 2, delta = 0, gamma = 0, vega = 0, theta = 0, rho = 0\<rparr>
   \<and> black_scholes erf_real 3 1 1 0 0 ''put'' 0 =
       Inr \<lparr>price = 0, delta = 0, gamma = 0, vega = 0, theta = 0, rho = 0\<rparr>"
  using black_scholes_zero_volatility [of 1 erf_real 3 1 0 0]
  by simp

text \<open>
  C4 (as amended). \<open>black_scholes\<close> validates nothing. It raises only in the general
  regime \<open>T > 0\<close>, \<open>sigma > 0\<close>: the division error when \<open>K = 0\<close>, the math-domain
  error of the logarithm when \<open>S / K \<le> 0\<close>; no Greeks are returned then. A negative
  \<open>T\<close> is priced as expiry, a negative \<open>sigma\<close> (with \<open>T > 0\<close>) as zero volatility,
  and a kind that is not \<open>call\<close> after lowercasing is priced as a put.
\<close>

theorem black_scholes_failure_cases:
  "black_scholes erf S K T r sigma kind q =
     (if T \<le> 0 then
        Inr \<lparr>price = (if lower kind = ''call'' then max 0 (S - K) else max 0 (K - S)),
             delta = 0, gamma = 0, vega = 0, theta = 0, rho = 0\<rparr>
      else if sigma \<le> 0 then
        Inr \<lparr>price = exp (- r * T) *
                       (if lower kind = ''call'' then max 0 (S * exp (- q * T) - K)
                        else max 0 (K - S * exp (- q * T))),
             delta = 0, gamma = 0, vega = 0, theta = 0, rho = 0\<rparr>
      else if K = 0 then Inl ZeroDivisionError
      else if S / K \<le> 0 then Inl ValueError
      else Inr (closed_form erf (lower kind = ''call'') S K T r sigma q))"
  by (simp add: black_scholes_expiry black_scholes_zero_vol black_scholes_div_error
      black_scholes_log_error black_scholes_general)

theorem black_scholes_failure_cases_witness:
  "black_scholes erf_real (- 1) 0 1 0 1 ''call'' 0 = Inl ZeroDivisionError
   \<and> black_scholes erf_real (- 1) 1 1 0 1 ''call'' 0 = Inl ValueError
   \<and> black_scholes erf_real 3 1 1 0 (- 1) ''straddle'' 0 =
       Inr \<lparr>price = 0, delta = 0, gamma = 0, vega = 0, theta = 0, rho = 0\<rparr>"
  using black_scholes_failure_cases [of erf_real "- 1" 0 1 0 1 "''call''" 0]
    black_scholes_failure_cases [of erf_real "- 1" 1 1 0 1 "''call''" 0]
    black_scholes_failure_cases [of erf_real 3 1 1 0 "- 1" "''straddle''" 0]
  by (simp add: lower_def lower_char_def)

text \<open>
  The claim as written makes a negative \<open>T\<close> a failure; the code returns the expiry
  result there.
\<close>

theorem black_scholes_invalid_input_counterexample:
  "black_scholes erf_real 3 1 (- 1) 0 1 ''call'' 0 =
     Inr \<lparr>price = 2, delta = 0, gamma = 0, vega = 0, theta = 0, rho = 0\<rparr>"
  by (simp add: black_scholes_def lower_call)



section \<open>The strategy builder\<close>

text \<open>
  C6 (as amended). For strikes with \<open>long_put \<le> short_put \<le> short_call \<le> long_call\<close>
  whose two spreads have the same positive width, and inputs of magnitude
  \<open>G = |credit| + |terminalPrice| + |long_put| + |long_call|\<close> at most \<open>2^1000\<close>,
  \<open>iron_condor_payoff\<close> returns a finite double that differs from the exact payoff by
  at most \<open>tol = G / 2^48 + 1 / 2^1070\<close>. The exact payoff lies between
  \<open>credit - width\<close> and \<open>credit\<close>, so the returned payoff lies between
  \<open>credit - width - tol\<close> and \<open>credit + tol\<close>.
\<close>

theorem iron_condor_payoff_rounded_bounds:
  assumes "long_call st - short_call st = width" and "short_put st - long_put st = width"
    and "0 < width"
    and "long_put st \<le> short_put st" and "short_put st \<le> short_call st"
    and "short_call st \<le> long_call st"
    and "\<bar>credit\<bar> + \<bar>terminalPrice\<bar> + \<bar>long_put st\<bar> + \<bar>long_call st\<bar> \<le> 2 ^ 1000"
  shows "\<exists>p. iron_condor_payoff terminalPrice st credit = Fin p
           \<and> \<bar>p - payoff_exact terminalPrice st credit\<bar>
               \<le> (\<bar>credit\<bar> + \<bar>terminalPrice\<bar> + \<bar>long_put st\<bar> + \<bar>long_call st\<bar>) / 2 ^ 48
                   + 1 / 2 ^ 1070
           \<and> credit - width
                 - ((\<bar>credit\<bar> + \<bar>terminalPrice\<bar> + \<bar>long_put st\<bar> + \<bar>long_call st\<bar>) / 2 ^ 48
                    + 1 / 2 ^ 1070) \<le> p
           \<and> p \<le> credit
                 + ((\<bar>credit\<bar> + \<bar>terminalPrice\<bar> + \<bar>long_put st\<bar> + \<bar>long_call st\<bar>) / 2 ^ 48
                    + 1 / 2 ^ 1070)"
proof -
  define G where "G = \<bar>credit\<bar> + \<bar>terminalPrice\<bar> + \<bar>long_put st\<bar> + \<bar>long_call st\<bar>"
  have big: "G \<le> 2 ^ 1000" using assms(7) by (simp only: G_def)
  obtain p where run: "iron_condor_payoff terminalPrice st credit = Fin p"
    and err: "\<bar>p - payoff_exact terminalPrice st credit\<bar> \<le> 32 * (unit_roundoff * G) + 32 * tiny"
    using payoff_rounding [OF assms(4-6) G_def big] by blast
  have "32 * (unit_roundoff * G) = G / 2 ^ 48"
    by (simp add: unit_roundoff_def)
  moreover have "32 * tiny = 1 / 2 ^ 1070"
    by (simp add: tiny_def)
  ultimately have tol: "\<bar>p - payoff_exact terminalPrice st credit\<bar> \<le> G / 2 ^ 48 + 1 / 2 ^ 1070"
    using err by (simp only:)
  have ex: "credit - width \<le> payoff_exact terminalPrice st credit"
      "payoff_exact terminalPrice st credit \<le> credit"
    using payoff_exact_bounds [OF assms(1-6)] by simp_all
  have "credit - width - (G / 2 ^ 48 + 1 / 2 ^ 1070) \<le> p"
    using tol ex(1) by linarith
  moreover have "p \<le> credit + (G / 2 ^ 48 + 1 / 2 ^ 1070)"
    using tol ex(2) by linarith
  ultimately show ?thesis
    using run tol unfolding G_def by blast
qed

theorem iron_condor_payoff_rounded_bounds_witness:
  "long_call \<lparr>long_put = 75, short_put = 80, short_call = 120, long_call = 125\<rparr>
     - short_call \<lparr>long_put = 75, short_put = 80, short_call = 120, long_call = 125\<rparr> = 5
   \<and> short_put \<lparr>long_put = 75, short_put = 80, short_call = 120, long_call = 125\<rparr>
     - long_put \<lparr>long_put = 75, short_put = 80, short_call = 120, long_call = 125\<rparr> = 5
   \<and> (0::real) < 5
   \<and> \<bar>2\<bar> + \<bar>70\<bar> + \<bar>75\<bar> + \<bar>125\<bar> \<le> (2::real) ^ 1000
   \<and> (\<exists>p. iron_condor_payoff 70
                \<lparr>long_put = 75, short_put = 80, short_call = 120, long_call = 125\<rparr> 2 = Fin p
           \<and> 2 - 5 - (272 / 2 ^ 48 + 1 / 2 ^ 1070) \<le> p
           \<and> p \<le> 2 + (272 / 2 ^ 48 + 1 / 2 ^ 1070))"
proof -
  let ?st = "\<lparr>long_put = 75, short_put = 80, short_call = 120, long_call = 125\<rparr>"
  have big: "\<bar>2\<bar> + \<bar>70\<bar> + \<bar>long_put ?st\<bar> + \<bar>long_call ?st\<bar> \<le> (2::real) ^ 1000"
  proof -
    have "(272::real) \<le> 2 ^ 9" by simp
    also have "\<dots> \<le> 2 ^ 1000" by (rule power_increasing) simp_all
    finally show ?thesis by simp
  qed
  have "\<exists>p. iron_condor_payoff 70 ?st 2 = Fin p
           \<and> \<bar>p - payoff_exact 70 ?st 2\<bar>
               \<le> (\<bar>2\<bar> + \<bar>70\<bar> + \<bar>long_put ?st\<bar> + \<bar>long_call ?st\<bar>) / 2 ^ 48 + 1 / 2 ^ 1070
           \<and> 2 - 5 - ((\<bar>2\<bar> + \<bar>70\<bar> + \<bar>long_put ?st\<bar> + \<bar>long_call ?st\<bar>) / 2 ^ 48 + 1 / 2 ^ 1070) \<le> p
           \<and> p \<le> 2 + ((\<bar>2\<bar> + \<bar>70\<bar> + \<bar>long_put ?st\<bar> + \<bar>long_call ?st\<bar>) / 2 ^ 48 + 1 / 2 ^ 1070)"
    by (rule iron_condor_payoff_rounded_bounds [where width = 5, OF _ _ _ _ _ _ big]) simp_all
  then obtain p where p: "iron_condor_payoff 70 ?st 2 = Fin p"
    "2 - 5 - ((\<bar>2\<bar> + \<bar>70\<bar> + \<bar>long_put ?st\<bar> + \<bar>long_call ?st\<bar>) / 2 ^ 48 + 1 / 2 ^ 1070) \<le> p"
    "p \<le> 2 + ((\<bar>2\<bar> + \<bar>70\<bar> + \<bar>long_put ?st\<bar> + \<bar>long_call ?st\<bar>) / 2 ^ 48 + 1 / 2 ^ 1070)"
    by blast
  have g: "(\<bar>2\<bar> + \<bar>70\<bar> + \<bar>long_put ?st\<bar> + \<bar>long_call ?st\<bar>) = (272::real)" by simp
  have "\<exists>p. iron_condor_payoff 70 ?st 2 = Fin p
           \<and> 2 - 5 - (272 / 2 ^ 48 + 1 / 2 ^ 1070) \<le> p
           \<and> p \<le> 2 + (272 / 2 ^ 48 + 1 / 2 ^ 1070)"
    using p unfolding g by blast
  moreover have "\<bar>2\<bar> + \<bar>70\<bar> + \<bar>75\<bar> + \<bar>125\<bar> \<le> (2::real) ^ 1000"
    using big by simp
  ultimately show ?thesis by simp
qed

text \<open>
  The claim as written has no tolerance. At the strikes 75, 80, 120, 125, the terminal
  price 45.12 and the credit 0.15 (both as doubles) the difference \<open>credit - 34.88\<close> is
  rounded downwards, and the payoff returned, \<open>- 4.850000000000001\<close>, is below
  \<open>credit - width\<close>.
\<close>

theorem iron_condor_payoff_bounds_counterexample:
  "fl_of (6350075474592399 / 2 ^ 47) = Fin (6350075474592399 / 2 ^ 47)
   \<and> fl_of (5404319552844595 / 2 ^ 55) = Fin (5404319552844595 / 2 ^ 55)
   \<and> iron_condor_payoff (6350075474592399 / 2 ^ 47)
        \<lparr>long_put = 75, short_put = 80, short_call = 120, long_call = 125\<rparr>
        (5404319552844595 / 2 ^ 55) = Fin (- (682576818523341 / 2 ^ 47))
   \<and> - (682576818523341 / 2 ^ 47) < 5404319552844595 / 2 ^ 55 - (5::real)"
proof -
  let ?x = "6350075474592399 / 2 ^ 47 :: real"
  let ?c = "5404319552844595 / 2 ^ 55 :: real"
  let ?a1 = "4908923593833841 / 2 ^ 47 :: real"
  let ?a2 = "4205236152057201 / 2 ^ 47 :: real"
  let ?p1 = "- (4887812970580542 / 2 ^ 47) :: real"
  let ?p2 = "- (682576818523341 / 2 ^ 47) :: real"
  have x: "fl_of ?x = Fin ?x"
    by (rule fl_of_exact [where e = 5 and m = 6350075474592399])
       (simp_all add: powr_minus_divide)
  have c: "fl_of ?c = Fin ?c"
    by (rule fl_of_exact [where e = "- 3" and m = 5404319552844595])
       (simp_all add: powr_minus_divide)
  have a1: "fl_of ?a1 = Fin ?a1"
    by (rule fl_of_exact [where e = 5 and m = 4908923593833841])
       (simp_all add: powr_minus_divide)
  have a2: "fl_of ?a2 = Fin ?a2"
    by (rule fl_of_exact [where e = 4 and m = 8410472304114402])
       (simp_all add: powr_minus_divide)
  have p2: "fl_of ?p2 = Fin ?p2"
    by (rule fl_of_exact [where e = 2 and m = "- 5460614548186728"])
       (simp_all add: powr_minus_divide)
  have p1: "fl_of (?c - ?a1) = Fin ?p1"
  proof -
    have "fl_of (- (1251280120468618701 / 2 ^ 55)) =
        Fin (2 powr of_int (5 - 52)
             * of_int (round_half_even (- (1251280120468618701 / 2 ^ 55) / 2 powr of_int (5 - 52))))"
      by (rule fl_of_binade) simp_all
    moreover have "- (1251280120468618701 / 2 ^ 55) / 2 powr of_int (5 - 52)
        = - (1251280120468618701 / 256 :: real)"
      by (simp add: powr_minus_divide)
    moreover have "round_half_even (- (1251280120468618701 / 256)) = - 4887812970580542"
      by (simp add: round_half_even_def Let_def)
    ultimately have "fl_of (- (1251280120468618701 / 2 ^ 55)) = Fin ?p1"
      by (simp add: powr_minus_divide)
    then show ?thesis by simp
  qed
  have leg1: "py_max0 (fl_sub (Fin 80) (Fin ?x)) = Fin ?a1"
  proof -
    have "80 - ?x = ?a1" by simp
    then have "fl_sub (Fin 80) (Fin ?x) = Fin ?a1"
      by (simp only: fl_sub_Fin a1)
    then show ?thesis by (simp add: py_max0_def)
  qed
  have leg2: "py_max0 (fl_sub (Fin 75) (Fin ?x)) = Fin ?a2"
  proof -
    have "75 - ?x = ?a2" by simp
    then have "fl_sub (Fin 75) (Fin ?x) = Fin ?a2"
      by (simp only: fl_sub_Fin a2)
    then show ?thesis by (simp add: py_max0_def)
  qed
  have leg3: "py_max0 (fl_sub (Fin ?x) (Fin 120)) = Fin 0"
    by (simp only: fl_sub_Fin) (rule py_max0_nonpos, simp)
  have leg4: "py_max0 (fl_sub (Fin ?x) (Fin 125)) = Fin 0"
    by (simp only: fl_sub_Fin) (rule py_max0_nonpos, simp)
  have s1: "fl_sub (Fin ?c) (Fin ?a1) = Fin ?p1"
    by (simp only: fl_sub_Fin p1)
  have s2: "fl_add (Fin ?p1) (Fin ?a2) = Fin ?p2"
  proof -
    have "?p1 + ?a2 = ?p2" by simp
    then show ?thesis by (simp only: fl_add_Fin p2)
  qed
  have s3: "fl_sub (Fin ?p2) (Fin 0) = Fin ?p2"
    by (simp only: fl_sub_Fin diff_zero p2)
  have s4: "fl_add (Fin ?p2) (Fin 0) = Fin ?p2"
    by (simp only: fl_add_Fin add_0_right p2)
  have run: "iron_condor_payoff ?x
        \<lparr>long_put = 75, short_put = 80, short_call = 120, long_call = 125\<rparr> ?c = Fin ?p2"
    by (simp only: iron_condor_payoff_def Let_def strikes.simps leg1 leg2 leg3 leg4 s1 s2 s3 s4)
  have "?p2 < ?c - 5" by simp
  with x c run show ?thesis by (intro conjI)
qed

text \<open>
  C7. When the move \<open>S * sigma * sqrt T\<close> is computed (the square root does not raise)
  and is positive, and \<open>width > 0\<close>, \<open>iron_condor\<close> returns strikes with
  \<open>short_put = S - move\<close>, \<open>long_put = short_put - width\<close>, \<open>short_call = S + move\<close>,
  \<open>long_call = short_call + width\<close> and
  \<open>long_put < short_put < short_call < long_call\<close>.
\<close>

theorem iron_condor_ordering:
  assumes "math_sqrt T = Inr rootT" and "0 < S * sigma * rootT" and "0 < width"
  shows "\<exists>st. iron_condor S sigma T r width = Inr st
           \<and> short_put st = S - S * sigma * rootT
           \<and> long_put st = short_put st - width
           \<and> short_call st = S + S * sigma * rootT
           \<and> long_call st = short_call st + width
           \<and> long_put st < short_put st
           \<and> short_put st < short_call st
           \<and> short_call st < long_call st"
  using assms by (simp add: iron_condor_def then_res_def Let_def)

theorem iron_condor_ordering_witness:
  "math_sqrt 4 = Inr 2 \<and> (0::real) < 100 * (1 / 10) * 2 \<and> (0::real) < 5
   \<and> iron_condor 100 (1 / 10) 4 0 5 =
       Inr \<lparr>long_put = 75, short_put = 80, short_call = 120, long_call = 125\<rparr>"
proof -
  have root: "math_sqrt 4 = Inr 2"
    using real_sqrt_abs [of 2] by (simp add: math_sqrt_def)
  have move: "(0::real) < 100 * (1 / 10) * 2" and width: "(0::real) < 5"
    by simp_all
  from iron_condor_ordering [OF root move width, of 0]
  obtain st where "iron_condor 100 (1 / 10) 4 0 5 = Inr st"
    and "short_put st = 80" and "long_put st = short_put st - 5"
    and "short_call st = 120" and "long_call st = short_call st + 5"
    by auto
  then have "iron_condor 100 (1 / 10) 4 0 5 =
      Inr \<lparr>long_put = 75, short_put = 80, short_call = 120, long_call = 125\<rparr>"
    by (cases st) simp
  with root show ?thesis by simp
qed

text \<open>
  C8 (as amended). \<open>iron_condor\<close> validates nothing: it fails exactly when \<open>T < 0\<close>,
  with the math-domain error of the square root and without strikes; for every other
  input, a non-positive \<open>S\<close>, a negative \<open>sigma\<close> and a non-positive \<open>width\<close>
  included, it returns the four strikes of the formulas.
\<close>

theorem iron_condor_failure_cases:
  "iron_condor S sigma T r width =
     (if T < 0 then Inl ValueError
      else Inr \<lparr>long_put = S - S * sigma * sqrt T - width,
                short_put = S - S * sigma * sqrt T,
                short_call = S + S * sigma * sqrt T,
                long_call = S + S * sigma * sqrt T + width\<rparr>)"
  by (rule iron_condor_eq)

theorem iron_condor_failure_cases_witness:
  "iron_condor 100 (1 / 10) (- 1) 0 5 = Inl ValueError
   \<and> iron_condor (- 100) (- 1) 1 0 (- 5) =
       Inr \<lparr>long_put = - 195, short_put = - 200, short_call = 0, long_call = - 5\<rparr>"
  using iron_condor_failure_cases [of 100 "1 / 10" "- 1" 0 5]
    iron_condor_failure_cases [of "- 100" "- 1" 1 0 "- 5"]
  by simp

text \<open>
  The claim as written makes \<open>S \<le> 0\<close>, \<open>sigma < 0\<close> and \<open>width \<le> 0\<close> failures; the
  code returns strikes for them.
\<close>

theorem iron_condor_invalid_input_counterexample:
  "iron_condor 0 (- 1) 0 0 0 =
     Inr \<lparr>long_put = 0, short_put = 0, short_call = 0, long_call = 0\<rparr>"
  by (simp add: iron_condor_def then_res_def math_sqrt_def Let_def)

text \<open>
  C10. The strikes do not depend on the rate: two calls of \<open>iron_condor\<close> that differ
  only in \<open>r\<close> return the same result.
\<close>

theorem iron_condor_rate_independent:
  "iron_condor S sigma T r1 width = iron_condor S sigma T r2 width"
  by (simp add: iron_condor_def)

end
